theory Spec2Isabelle
  imports Complex_Main
begin

section \<open>Dense arrays and the array runtime used by \<^verbatim>\<open>scatter_ops.py\<close>\<close>

text \<open>
  \<^verbatim>\<open>dpvslam/scatter_ops.py\<close> defines four functions, \<^verbatim>\<open>scatter_sum\<close>,
  \<^verbatim>\<open>_expand_index\<close>, \<^verbatim>\<open>scatter_max\<close> and \<^verbatim>\<open>scatter_softmax\<close>, on top of the
  tensor operations of the array runtime (\<^verbatim>\<open>torch\<close>). The four functions are translated
  statement by statement below. The runtime operations they call are modelled first, from
  their documented behaviour on the host device: every check that makes one of them raise
  is a branch returning \<open>Inl\<close>.

  A tensor is its shape together with its elements, addressed by multi-index (one
  coordinate per dimension, row-major order where an order matters). Strides, devices and
  storage sharing are not part of the model: the functions of this file never mutate a
  tensor in place, and inputs are taken to be contiguous.
\<close>

datatype error = RuntimeError | IndexError

record 'a tensor =
  shape :: "nat list"
  elems :: "nat list \<Rightarrow> 'a"

text \<open>\<^verbatim>\<open>Tensor.dim()\<close> and \<^verbatim>\<open>Tensor.numel()\<close>.\<close>

definition tdim :: "('a, 'b) tensor_scheme \<Rightarrow> nat" where
  "tdim t = length (shape t)"

definition numel :: "('a, 'b) tensor_scheme \<Rightarrow> nat" where
  "numel t = prod_list (shape t)"

text \<open>All multi-indices of a shape, in row-major order (the last coordinate runs fastest).\<close>

definition indices :: "nat list \<Rightarrow> nat list list" where
  "indices shp = product_lists (map (\<lambda>n. [0..<n]) shp)"

text \<open>
  Python's \<^verbatim>\<open>xs[d] = v\<close> and \<^verbatim>\<open>xs[d]\<close> on a list (or on a \<^verbatim>\<open>torch.Size\<close>): a negative
  \<open>d\<close> counts from the end, and a position outside the list raises \<^verbatim>\<open>IndexError\<close>.
\<close>

definition list_setitem :: "'a list \<Rightarrow> int \<Rightarrow> 'a \<Rightarrow> error + 'a list" where
  "list_setitem xs d v =
     (let n = int (length xs); j = (if d < 0 then d + n else d)
      in if 0 \<le> j \<and> j < n then Inr (xs[nat j := v]) else Inl IndexError)"

definition list_getitem :: "'a list \<Rightarrow> int \<Rightarrow> error + 'a" where
  "list_getitem xs d =
     (let n = int (length xs); j = (if d < 0 then d + n else d)
      in if 0 \<le> j \<and> j < n then Inr (xs ! nat j) else Inl IndexError)"

text \<open>
  The runtime's handling of a dimension argument: a tensor of rank \<open>r\<close> accepts
  \<open>-r \<le> d < r\<close> (a rank-0 tensor is treated as rank 1), anything else raises
  \<^verbatim>\<open>IndexError\<close>.
\<close>

definition wrap_dim :: "int \<Rightarrow> nat \<Rightarrow> error + nat" where
  "wrap_dim d r =
     (let n = int (max r 1)
      in if - n \<le> d \<and> d < n then Inr (nat (if d < 0 then d + n else d)) else Inl IndexError)"

text \<open>
  \<^verbatim>\<open>int(index.max().item())\<close>: the maximum of all elements; on a tensor with no
  elements the reduction has no identity and the runtime raises \<^verbatim>\<open>RuntimeError\<close>.
  Index elements are 64-bit integers in the runtime and unbounded \<open>int\<close>s here; the
  only arithmetic on them, \<^verbatim>\<open>+ 1\<close>, is done on a Python integer and does not wrap.
\<close>

definition tmax :: "int tensor \<Rightarrow> error + int" where
  "tmax t =
     (case map (elems t) (indices (shape t)) of
        [] \<Rightarrow> Inl RuntimeError
      | v # vs \<Rightarrow> Inr (fold max vs v))"

text \<open>
  \<^verbatim>\<open>torch.zeros(shape, ...)\<close> and \<^verbatim>\<open>torch.full(shape, v, ...)\<close>: the shape is a list
  of Python integers, and a negative size raises \<^verbatim>\<open>RuntimeError\<close>.
  \<^verbatim>\<open>torch.zeros_like(t)\<close> has the shape of \<open>t\<close>.
\<close>

definition full :: "int list \<Rightarrow> 'a \<Rightarrow> error + 'a tensor" where
  "full shp v =
     (if \<forall>n \<in> set shp. 0 \<le> n then Inr \<lparr>shape = map nat shp, elems = (\<lambda>_. v)\<rparr>
      else Inl RuntimeError)"

definition zeros :: "int list \<Rightarrow> error + ('a::zero) tensor" where
  "zeros shp = full shp 0"

definition zeros_like :: "'a tensor \<Rightarrow> ('b::zero) tensor" where
  "zeros_like t = \<lparr>shape = shape t, elems = (\<lambda>_. 0)\<rparr>"

text \<open>
  Broadcasting reads a tensor of shape \<open>shp\<close> at a multi-index \<open>i\<close> of a larger shape:
  the leading coordinates that \<open>shp\<close> lacks are dropped, and a coordinate along a
  dimension of size 1 is read at 0.
\<close>

definition bcast_pos :: "nat list \<Rightarrow> nat list \<Rightarrow> nat list" where
  "bcast_pos shp i =
     map2 (\<lambda>c k. if c = 1 then 0 else k) shp (drop (length i - length shp) i)"

text \<open>
  \<^verbatim>\<open>t.expand(sizes)\<close>: \<open>sizes\<close> has at least the rank of \<open>t\<close>; aligned at the last
  dimension, each size of \<open>t\<close> is the requested one or is 1, otherwise the runtime
  raises \<^verbatim>\<open>RuntimeError\<close>. (The placeholder \<^verbatim>\<open>-1\<close> never occurs here: every
  requested size is read from a shape.) \<^verbatim>\<open>t.expand_as(other)\<close> is
  \<^verbatim>\<open>t.expand(other.shape)\<close>.
\<close>

definition expand :: "'a tensor \<Rightarrow> nat list \<Rightarrow> error + 'a tensor" where
  "expand t sizes =
     (if length (shape t) \<le> length sizes \<and>
         list_all2 (\<lambda>c s. c = s \<or> c = 1) (shape t)
           (drop (length sizes - length (shape t)) sizes)
      then Inr \<lparr>shape = sizes, elems = (\<lambda>i. elems t (bcast_pos (shape t) i))\<rparr>
      else Inl RuntimeError)"

definition expand_as :: "'a tensor \<Rightarrow> 'b tensor \<Rightarrow> error + 'a tensor" where
  "expand_as t other = expand t (shape other)"

text \<open>
  Row-major position of a multi-index in a shape, and back. \<^verbatim>\<open>t.view(sizes)\<close> keeps the
  row-major sequence of elements and changes the shape; the element counts must agree
  (\<^verbatim>\<open>RuntimeError\<close> otherwise).
\<close>

fun ravel :: "nat list \<Rightarrow> nat list \<Rightarrow> nat" where
  "ravel (n # ns) (i # is) = i * prod_list ns + ravel ns is"
| "ravel _ _ = 0"

fun unravel :: "nat list \<Rightarrow> nat \<Rightarrow> nat list" where
  "unravel [] k = []"
| "unravel (n # ns) k = (k div prod_list ns) # unravel ns (k mod prod_list ns)"

definition view :: "'a tensor \<Rightarrow> nat list \<Rightarrow> error + 'a tensor" where
  "view t sizes =
     (if prod_list sizes = numel t
      then Inr \<lparr>shape = sizes, elems = (\<lambda>i. elems t (unravel (shape t) (ravel sizes i)))\<rparr>
      else Inl RuntimeError)"

text \<open>
  The scatter primitives. \<^verbatim>\<open>self.scatter_add(dim, index, src)\<close> visits every
  multi-index \<open>i\<close> of \<open>index\<close> and adds \<open>src[i]\<close> into \<open>self\<close> at \<open>i\<close> with its
  coordinate along \<open>dim\<close> replaced by \<open>index[i]\<close>. The runtime requires \<open>self\<close>,
  \<open>index\<close> and \<open>src\<close> to have one rank, \<open>index\<close> to be no larger than \<open>src\<close> in
  every dimension and no larger than \<open>self\<close> in every dimension but \<open>dim\<close>, and every
  index value to lie in \<open>[0, self.size(dim))\<close>; a violation raises \<^verbatim>\<open>RuntimeError\<close>.
  An \<open>index\<close> with no elements skips the checks and leaves \<open>self\<close> as it is. The
  callers below only pass tensors of one rank, at least 1.
\<close>

definition scatter_pos :: "nat \<Rightarrow> int tensor \<Rightarrow> nat list \<Rightarrow> nat list" where
  "scatter_pos d index i = i[d := nat (elems index i)]"

definition scatter_check :: "'a tensor \<Rightarrow> nat \<Rightarrow> int tensor \<Rightarrow> 'b tensor \<Rightarrow> bool" where
  "scatter_check self d index src \<longleftrightarrow>
     tdim index = tdim self \<and> tdim src = tdim index \<and>
     list_all2 (\<le>) (shape index) (shape src) \<and>
     (\<forall>k \<in> set [0..<tdim index]. k \<noteq> d \<longrightarrow> shape index ! k \<le> shape self ! k) \<and>
     (\<forall>i \<in> set (indices (shape index)).
        0 \<le> elems index i \<and> elems index i < int (shape self ! d))"

definition scatter_add ::
  "('a::plus) tensor \<Rightarrow> int \<Rightarrow> int tensor \<Rightarrow> 'a tensor \<Rightarrow> error + 'a tensor" where
  "scatter_add self dim' index src =
     (case wrap_dim dim' (tdim self) of
        Inl e \<Rightarrow> Inl e
      | Inr d \<Rightarrow>
          if numel index = 0 then Inr self
          else if scatter_check self d index src then
            Inr (self\<lparr>elems :=
              fold (\<lambda>i f. f(scatter_pos d index i := f (scatter_pos d index i) + elems src i))
                (indices (shape index)) (elems self)\<rparr>)
          else Inl RuntimeError)"

text \<open>
  \<^verbatim>\<open>self.gather(dim, index)\<close>: the result has the shape of \<open>index\<close> and holds, at
  \<open>i\<close>, the element of \<open>self\<close> at \<open>i\<close> with its coordinate along \<open>dim\<close> replaced by
  \<open>index[i]\<close>; the rank, size and range checks are those of scatter without \<open>src\<close>.
\<close>

definition gather_check :: "'a tensor \<Rightarrow> nat \<Rightarrow> int tensor \<Rightarrow> bool" where
  "gather_check self d index \<longleftrightarrow>
     tdim index = tdim self \<and>
     (\<forall>k \<in> set [0..<tdim index]. k \<noteq> d \<longrightarrow> shape index ! k \<le> shape self ! k) \<and>
     (\<forall>i \<in> set (indices (shape index)).
        0 \<le> elems index i \<and> elems index i < int (shape self ! d))"

definition gather :: "'a tensor \<Rightarrow> int \<Rightarrow> int tensor \<Rightarrow> error + 'a tensor" where
  "gather self dim' index =
     (case wrap_dim dim' (tdim self) of
        Inl e \<Rightarrow> Inl e
      | Inr d \<Rightarrow>
          if numel index = 0 \<or> gather_check self d index
          then Inr \<lparr>shape = shape index, elems = (\<lambda>i. elems self (scatter_pos d index i))\<rparr>
          else Inl RuntimeError)"

subsection \<open>Floating-point elements\<close>

text \<open>
  \<^verbatim>\<open>scatter_max\<close> fills its output with \<^verbatim>\<open>float("-inf")\<close> in the element type of
  \<open>src\<close>, which the runtime refuses for an integer element type; \<^verbatim>\<open>scatter_max\<close> and
  \<^verbatim>\<open>scatter_softmax\<close> therefore work on floating-point tensors. A floating-point element
  is a NaN, an infinity or a finite number. Comparison, equality and maximum are exact on
  floating-point numbers and are modelled as the runtime computes them (a comparison with
  NaN is false; the two signed zeros are one number). Finite arithmetic is modelled
  without rounding: no statement below about sums, differences, exponentials or quotients
  of floating-point elements is made.
\<close>

datatype fval = NaN | NInf | Fin real | PInf

fun flt :: "fval \<Rightarrow> fval \<Rightarrow> bool" where
  "flt NaN _ = False"
| "flt _ NaN = False"
| "flt _ NInf = False"
| "flt PInf _ = False"
| "flt NInf _ = True"
| "flt (Fin a) (Fin b) = (a < b)"
| "flt (Fin a) PInf = True"

definition feq :: "fval \<Rightarrow> fval \<Rightarrow> bool" where
  "feq a b \<longleftrightarrow> a \<noteq> NaN \<and> a = b"

text \<open>
  The \<^verbatim>\<open>amax\<close> reduction step of the runtime's scatter kernel:
  \<^verbatim>\<open>isnan(src) ? src : max(self, src)\<close>, with \<^verbatim>\<open>max(a, b) = (a < b) ? b : a\<close>.
\<close>

definition fmax :: "fval \<Rightarrow> fval \<Rightarrow> fval" where
  "fmax self src = (if src = NaN then src else if flt self src then src else self)"

fun fadd :: "fval \<Rightarrow> fval \<Rightarrow> fval" where
  "fadd NaN _ = NaN"
| "fadd _ NaN = NaN"
| "fadd (Fin a) (Fin b) = Fin (a + b)"
| "fadd PInf NInf = NaN"
| "fadd NInf PInf = NaN"
| "fadd PInf _ = PInf"
| "fadd _ PInf = PInf"
| "fadd NInf _ = NInf"
| "fadd _ NInf = NInf"

fun fneg :: "fval \<Rightarrow> fval" where
  "fneg NaN = NaN"
| "fneg NInf = PInf"
| "fneg (Fin a) = Fin (- a)"
| "fneg PInf = NInf"

definition fsub :: "fval \<Rightarrow> fval \<Rightarrow> fval" where
  "fsub a b = fadd a (fneg b)"

fun fexp :: "fval \<Rightarrow> fval" where
  "fexp NaN = NaN"
| "fexp NInf = Fin 0"
| "fexp (Fin a) = Fin (exp a)"
| "fexp PInf = PInf"

text \<open>Division; a zero divisor is taken as positive zero.\<close>

fun fdiv :: "fval \<Rightarrow> fval \<Rightarrow> fval" where
  "fdiv NaN _ = NaN"
| "fdiv _ NaN = NaN"
| "fdiv (Fin a) (Fin b) =
     (if b = 0 then (if a = 0 then NaN else if 0 < a then PInf else NInf) else Fin (a / b))"
| "fdiv (Fin a) _ = Fin 0"
| "fdiv PInf (Fin b) = (if b < 0 then NInf else PInf)"
| "fdiv NInf (Fin b) = (if b < 0 then PInf else NInf)"
| "fdiv _ _ = NaN"

text \<open>\<^verbatim>\<open>x.clamp(min=m)\<close> keeps a NaN and raises everything below \<open>m\<close> to \<open>m\<close>.\<close>

definition fclamp_min :: "fval \<Rightarrow> fval \<Rightarrow> fval" where
  "fclamp_min m x = (if x = NaN then NaN else if flt x m then m else x)"

instantiation fval :: "{zero,plus}"
begin

definition zero_fval :: fval where
  "zero_fval = Fin 0"

definition plus_fval :: "fval \<Rightarrow> fval \<Rightarrow> fval" where
  "plus_fval = fadd"

instance ..

end

text \<open>
  \<^verbatim>\<open>self.scatter_reduce(dim, index, src, reduce="amax", include_self=False)\<close>: the
  checks of scatter; with \<^verbatim>\<open>include_self=False\<close> every position of \<open>self\<close> that some
  element is scattered to is first reset to the identity of the reduction (negative
  infinity), then each \<open>src[i]\<close> is folded into its position with the \<^verbatim>\<open>amax\<close> step.
  Positions that nothing is scattered to keep the value of \<open>self\<close>.
\<close>

definition scatter_reduce_amax ::
  "fval tensor \<Rightarrow> int \<Rightarrow> int tensor \<Rightarrow> fval tensor \<Rightarrow> error + fval tensor" where
  "scatter_reduce_amax self dim' index src =
     (case wrap_dim dim' (tdim self) of
        Inl e \<Rightarrow> Inl e
      | Inr d \<Rightarrow>
          if numel index = 0 then Inr self
          else if scatter_check self d index src then
            Inr (self\<lparr>elems :=
              fold (\<lambda>i f. f(scatter_pos d index i := fmax (f (scatter_pos d index i)) (elems src i)))
                (indices (shape index))
                (fold (\<lambda>i f. f(scatter_pos d index i := NInf))
                   (indices (shape index)) (elems self))\<rparr>)
          else Inl RuntimeError)"

text \<open>
  Element-wise operations. A binary operation broadcasts its operands to a common shape
  (aligned at the last dimension; sizes must agree or one of them be 1) and raises
  \<^verbatim>\<open>RuntimeError\<close> when there is none. \<^verbatim>\<open>t == v\<close> compares every element with a
  scalar. \<^verbatim>\<open>torch.where(c, a, b)\<close> selects element-wise; its three operands have one
  shape in the only call below.
\<close>

fun bshape_rev :: "nat list \<Rightarrow> nat list \<Rightarrow> nat list option" where
  "bshape_rev [] ys = Some ys"
| "bshape_rev xs [] = Some xs"
| "bshape_rev (x # xs) (y # ys) =
     (if x = y \<or> y = 1 then map_option ((#) x) (bshape_rev xs ys)
      else if x = 1 then map_option ((#) y) (bshape_rev xs ys)
      else None)"

definition broadcast_shapes :: "nat list \<Rightarrow> nat list \<Rightarrow> nat list option" where
  "broadcast_shapes a b = map_option rev (bshape_rev (rev a) (rev b))"

definition binop :: "('a \<Rightarrow> 'b \<Rightarrow> 'c) \<Rightarrow> 'a tensor \<Rightarrow> 'b tensor \<Rightarrow> error + 'c tensor" where
  "binop f a b =
     (case broadcast_shapes (shape a) (shape b) of
        None \<Rightarrow> Inl RuntimeError
      | Some shp \<Rightarrow>
          Inr \<lparr>shape = shp,
               elems = (\<lambda>i. f (elems a (bcast_pos (shape a) i)) (elems b (bcast_pos (shape b) i)))\<rparr>)"

definition unop :: "('a \<Rightarrow> 'b) \<Rightarrow> 'a tensor \<Rightarrow> 'b tensor" where
  "unop f a = \<lparr>shape = shape a, elems = (\<lambda>i. f (elems a i))\<rparr>"

definition eq_scalar :: "fval tensor \<Rightarrow> fval \<Rightarrow> bool tensor" where
  "eq_scalar t v = unop (\<lambda>x. feq x v) t"

definition twhere :: "bool tensor \<Rightarrow> 'a tensor \<Rightarrow> 'a tensor \<Rightarrow> 'a tensor" where
  "twhere c a b = \<lparr>shape = shape c, elems = (\<lambda>i. if elems c i then elems a i else elems b i)\<rparr>"

section \<open>The functions of \<^verbatim>\<open>scatter_ops.py\<close>\<close>

text \<open>
  The first statement of all three public functions:
  \<^verbatim>\<open>if dim_size is None: dim_size = int(index.max().item()) + 1\<close>.
\<close>

definition infer_dim_size :: "int tensor \<Rightarrow> int option \<Rightarrow> error + int" where
  "infer_dim_size index dim_size =
     (case dim_size of
        Some n \<Rightarrow> Inr n
      | None \<Rightarrow> (case tmax index of Inl e \<Rightarrow> Inl e | Inr m \<Rightarrow> Inr (m + 1)))"

text \<open>\<^verbatim>\<open>_expand_index(index, src, dim)\<close>.\<close>

definition expand_index :: "int tensor \<Rightarrow> 'a tensor \<Rightarrow> int \<Rightarrow> error + int tensor" where
  "expand_index index src dim' =
     (if tdim index = tdim src then expand_as index src
      else
        case list_setitem (replicate (tdim src) 1) dim' (numel index) of
          Inl e \<Rightarrow> Inl e
        | Inr view_shape \<Rightarrow>
        case view index view_shape of
          Inl e \<Rightarrow> Inl e
        | Inr index' \<Rightarrow>
        case list_getitem (shape index') dim' of
          Inl e \<Rightarrow> Inl e
        | Inr n \<Rightarrow>
        case list_setitem (shape src) dim' n of
          Inl e \<Rightarrow> Inl e
        | Inr expand_shape \<Rightarrow> expand index' expand_shape)"

text \<open>\<^verbatim>\<open>scatter_sum(src, index, dim, dim_size)\<close>.\<close>

definition scatter_sum ::
  "('a::{zero,plus}) tensor \<Rightarrow> int tensor \<Rightarrow> int \<Rightarrow> int option \<Rightarrow> error + 'a tensor" where
  "scatter_sum src index dim' dim_size =
     (case infer_dim_size index dim_size of
        Inl e \<Rightarrow> Inl e
      | Inr dim_size' \<Rightarrow>
        case list_setitem (map int (shape src)) dim' dim_size' of
          Inl e \<Rightarrow> Inl e
        | Inr shp \<Rightarrow>
        case expand_index index src dim' of
          Inl e \<Rightarrow> Inl e
        | Inr index_expanded \<Rightarrow>
        case zeros shp of
          Inl e \<Rightarrow> Inl e
        | Inr out \<Rightarrow> scatter_add out dim' index_expanded src)"

text \<open>
  \<^verbatim>\<open>scatter_max(src, index, dim, dim_size)\<close>; the second component is the
  \<^verbatim>\<open>torch.long\<close> tensor \<^verbatim>\<open>torch.zeros_like(out, dtype=torch.long)\<close>.
\<close>

definition scatter_max ::
  "fval tensor \<Rightarrow> int tensor \<Rightarrow> int \<Rightarrow> int option \<Rightarrow> error + (fval tensor \<times> int tensor)" where
  "scatter_max src index dim' dim_size =
     (case infer_dim_size index dim_size of
        Inl e \<Rightarrow> Inl e
      | Inr dim_size' \<Rightarrow>
        case list_setitem (map int (shape src)) dim' dim_size' of
          Inl e \<Rightarrow> Inl e
        | Inr shp \<Rightarrow>
        case expand_index index src dim' of
          Inl e \<Rightarrow> Inl e
        | Inr index_expanded \<Rightarrow>
        case full shp NInf of
          Inl e \<Rightarrow> Inl e
        | Inr out0 \<Rightarrow>
        case scatter_reduce_amax out0 dim' index_expanded src of
          Inl e \<Rightarrow> Inl e
        | Inr out1 \<Rightarrow>
            let out = twhere (eq_scalar out1 NInf) (zeros_like out1) out1
            in Inr (out, zeros_like out))"

text \<open>\<^verbatim>\<open>scatter_softmax(src, index, dim, dim_size)\<close>; the floor of the divisor is \<open>1e-12\<close>.\<close>

definition scatter_softmax ::
  "fval tensor \<Rightarrow> int tensor \<Rightarrow> int \<Rightarrow> int option \<Rightarrow> error + fval tensor" where
  "scatter_softmax src index dim' dim_size =
     (case infer_dim_size index dim_size of
        Inl e \<Rightarrow> Inl e
      | Inr dim_size' \<Rightarrow>
        case expand_index index src dim' of
          Inl e \<Rightarrow> Inl e
        | Inr index_expanded \<Rightarrow>
        case scatter_max src index dim' (Some dim_size') of
          Inl e \<Rightarrow> Inl e
        | Inr (max_vals, _) \<Rightarrow>
        case gather max_vals dim' index_expanded of
          Inl e \<Rightarrow> Inl e
        | Inr max_gathered \<Rightarrow>
        case binop fsub src max_gathered of
          Inl e \<Rightarrow> Inl e
        | Inr src_centered \<Rightarrow>
            let src_exp = unop fexp src_centered
            in case scatter_sum src_exp index dim' (Some dim_size') of
                 Inl e \<Rightarrow> Inl e
               | Inr sum_exp \<Rightarrow>
               case gather sum_exp dim' index_expanded of
                 Inl e \<Rightarrow> Inl e
               | Inr sum_gathered \<Rightarrow>
                   binop fdiv src_exp (unop (fclamp_min (Fin (1 / 10 ^ 12))) sum_gathered))"

section \<open>Notions used in the statements\<close>

text \<open>
  A dimension argument \<open>d\<close> is valid for rank \<open>r\<close> when \<open>-r \<le> d < r\<close>; its normalised,
  non-negative form counts from the front.
\<close>

definition valid_dim :: "int \<Rightarrow> nat \<Rightarrow> bool" where
  "valid_dim d r \<longleftrightarrow> - int r \<le> d \<and> d < int r"

definition norm_dim :: "int \<Rightarrow> nat \<Rightarrow> nat" where
  "norm_dim d r = nat (if d < 0 then d + int r else d)"

text \<open>
  An index is compatible with \<open>src\<close> along \<open>d\<close> when it has the rank of \<open>src\<close> and
  broadcasts to its shape, or has a different rank, \<open>d\<close> is a valid dimension of \<open>src\<close>
  and the index has as many elements as \<open>src\<close> has positions along \<open>d\<close>.
\<close>

definition index_compatible :: "int tensor \<Rightarrow> 'a tensor \<Rightarrow> int \<Rightarrow> bool" where
  "index_compatible index src d \<longleftrightarrow>
     (tdim index = tdim src \<and> list_all2 (\<lambda>c s. c = s \<or> c = 1) (shape index) (shape src)) \<or>
     (tdim index \<noteq> tdim src \<and> valid_dim d (tdim src) \<and>
      numel index = shape src ! norm_dim d (tdim src))"

text \<open>The group count: the supplied one, or the largest index value plus one.\<close>

definition group_count :: "int tensor \<Rightarrow> int option \<Rightarrow> int" where
  "group_count index dim_size =
     (case dim_size of
        Some n \<Rightarrow> n
      | None \<Rightarrow> Max (elems index ` set (indices (shape index))) + 1)"

text \<open>
  The positions of the source that contribute to the output position \<open>j\<close>: those that
  agree with \<open>j\<close> in every coordinate but \<open>k\<close> and whose (expanded) index value is the
  coordinate of \<open>j\<close> along \<open>k\<close>. The list has no repetitions.
\<close>

definition contributors :: "int tensor \<Rightarrow> nat \<Rightarrow> nat list \<Rightarrow> nat list list" where
  "contributors ie k j =
     filter (\<lambda>i. (\<forall>l \<in> set [0..<length j]. l \<noteq> k \<longrightarrow> i ! l = j ! l) \<and> elems ie i = int (j ! k))
       (indices (shape ie))"

text \<open>
  The order of floating-point elements (\<open>\<le>\<close>, false whenever a NaN is involved), and the
  maximum of a list of them: an element of the list that every element is below or equal
  to. A list with a NaN in it has no maximum.
\<close>

definition fle :: "fval \<Rightarrow> fval \<Rightarrow> bool" where
  "fle a b \<longleftrightarrow> flt a b \<or> feq a b"

definition is_maximum :: "fval \<Rightarrow> fval list \<Rightarrow> bool" where
  "is_maximum m xs \<longleftrightarrow> m \<in> set xs \<and> (\<forall>x \<in> set xs. fle x m)"

text \<open>The last step of \<^verbatim>\<open>scatter_max\<close> on one element.\<close>

definition drop_ninf :: "fval \<Rightarrow> fval" where
  "drop_ninf x = (if feq x NInf then 0 else x)"

text \<open>
  The index value of a source position \<open>i\<close>, read from the index itself: for an index of
  the rank of \<open>src\<close>, its element at \<open>i\<close> with every coordinate along a dimension of size
  1 read at 0; for an index of another rank, its element whose row-major number is the
  coordinate of \<open>i\<close> along the axis \<open>k\<close>.
\<close>

definition index_value :: "int tensor \<Rightarrow> 'a tensor \<Rightarrow> nat \<Rightarrow> nat list \<Rightarrow> int" where
  "index_value index src k i =
     (if tdim index = tdim src then elems index (bcast_pos (shape index) i)
      else elems index (unravel (shape index) (i ! k)))"

text \<open>
  The group of the output position \<open>j\<close>: the source positions, in row-major order, that
  agree with \<open>j\<close> in every coordinate but \<open>k\<close> and whose index value is the coordinate of
  \<open>j\<close> along \<open>k\<close>. The group of a source position is the group of the output position
  it is sent to.
\<close>

definition group_positions :: "int tensor \<Rightarrow> 'a tensor \<Rightarrow> nat \<Rightarrow> nat list \<Rightarrow> nat list list" where
  "group_positions index src k j =
     filter (\<lambda>i. (\<forall>l \<in> set [0..<length j]. l \<noteq> k \<longrightarrow> i ! l = j ! l) \<and>
                 index_value index src k i = int (j ! k))
       (indices (shape src))"



text \<open>Rank-1 tensors from lists, and the tensors of the examples.\<close>

definition vec :: "'a list \<Rightarrow> 'a tensor" where
  "vec xs = \<lparr>shape = [length xs], elems = (\<lambda>i. xs ! hd i)\<rparr>"

definition ex_src :: "int tensor" where
  "ex_src = vec [1, 2, 3, 4]"

definition ex_index :: "int tensor" where
  "ex_index = vec [0, 0, 1, 1]"

definition ex_fsrc :: "fval tensor" where
  "ex_fsrc = vec [Fin 1, Fin 2, Fin 3, Fin 4]"

definition ex_ninf :: "fval tensor" where
  "ex_ninf = vec [NInf, NInf, Fin 3, Fin 4]"

definition ex_empty :: "int tensor" where
  "ex_empty = vec []"

definition ex_cube :: "int tensor" where
  "ex_cube = \<lparr>shape = [2, 3, 4], elems = (\<lambda>i. int (ravel [2, 3, 4] i))\<rparr>"

definition ex_index3 :: "int tensor" where
  "ex_index3 = vec [0, 1, 0]"





definition ex_one_ninf :: "fval tensor" where
  "ex_one_ninf = vec [NInf]"

definition ex_one_index :: "int tensor" where
  "ex_one_index = vec [0]"

section \<open>Auxiliary facts\<close>

lemma length_indices: "length (indices shp) = prod_list shp"
  by (induction shp) (simp_all add: indices_def length_concat comp_def sum_list_triv)

lemma set_indices:
  "i \<in> set (indices shp) \<longleftrightarrow> length i = length shp \<and> (\<forall>k<length shp. i ! k < shp ! k)"
  by (auto simp: indices_def product_lists_set list_all2_conv_all_nth)

lemma distinct_indices: "distinct (indices shp)"
  unfolding indices_def by (rule distinct_product_lists) auto

lemma list_setitem_Inr:
  "list_setitem xs d v = Inr ys \<longleftrightarrow> valid_dim d (length xs) \<and> ys = xs[norm_dim d (length xs) := v]"
  by (auto simp: list_setitem_def valid_dim_def norm_dim_def Let_def)

lemma list_setitem_valid:
  "valid_dim d (length xs) \<Longrightarrow> list_setitem xs d v = Inr (xs[norm_dim d (length xs) := v])"
  by (simp add: list_setitem_Inr)

lemma list_setitem_Inl:
  "list_setitem xs d v = Inl e \<longleftrightarrow> \<not> valid_dim d (length xs) \<and> e = IndexError"
  by (auto simp: list_setitem_def valid_dim_def Let_def)

lemma list_getitem_valid:
  "valid_dim d (length xs) \<Longrightarrow> list_getitem xs d = Inr (xs ! norm_dim d (length xs))"
  by (auto simp: list_getitem_def valid_dim_def norm_dim_def Let_def)

lemma list_getitem_Inl:
  "list_getitem xs d = Inl e \<longleftrightarrow> \<not> valid_dim d (length xs) \<and> e = IndexError"
  by (auto simp: list_getitem_def valid_dim_def Let_def)

lemma wrap_dim_valid:
  "valid_dim d r \<Longrightarrow> wrap_dim d r = Inr (norm_dim d r)"
  by (auto simp: wrap_dim_def valid_dim_def norm_dim_def Let_def max_def)

lemma norm_dim_less: "valid_dim d r \<Longrightarrow> norm_dim d r < r"
  by (auto simp: valid_dim_def norm_dim_def)

lemma valid_dim_shift:
  "- int r \<le> d \<Longrightarrow> d < 0 \<Longrightarrow> valid_dim d r \<and> valid_dim (d + int r) r \<and> norm_dim (d + int r) r = norm_dim d r"
  by (auto simp: valid_dim_def norm_dim_def)

lemma prod_list_update_replicate:
  "k < r \<Longrightarrow> prod_list ((replicate r (Suc 0))[k := n]) = n"
  by (induction r arbitrary: k) (auto split: nat.splits)

lemma expand_index_lower:
  assumes "tdim index \<noteq> tdim src" "valid_dim d (tdim src)"
  shows "expand_index index src d =
     Inr \<lparr>shape = (shape src)[norm_dim d (tdim src) := numel index],
          elems = (\<lambda>i. elems index (unravel (shape index)
             (ravel ((replicate (tdim src) 1)[norm_dim d (tdim src) := numel index])
                (bcast_pos ((replicate (tdim src) 1)[norm_dim d (tdim src) := numel index]) i))))\<rparr>"
proof -
  let ?k = "norm_dim d (tdim src)"
  let ?vs = "(replicate (tdim src) (1::nat))[?k := numel index]"
  have k: "?k < tdim src" using assms(2) by (rule norm_dim_less)
  have a: "list_all2 (\<lambda>c s. c = s \<or> c = 1) ?vs ((shape src)[?k := numel index])"
    using k by (auto simp: list_all2_conv_all_nth tdim_def nth_list_update)
  show ?thesis
    using assms k a
    by (simp add: expand_index_def list_setitem_valid view_def prod_list_update_replicate
        list_getitem_valid expand_def tdim_def)
qed

lemma expand_index_same:
  assumes "tdim index = tdim src"
  shows "expand_index index src d =
     (if list_all2 (\<lambda>c s. c = s \<or> c = 1) (shape index) (shape src)
      then Inr \<lparr>shape = shape src, elems = (\<lambda>i. elems index (bcast_pos (shape index) i))\<rparr>
      else Inl RuntimeError)"
  using assms by (simp add: expand_index_def expand_as_def expand_def tdim_def)

lemma expand_index_tdim:
  "expand_index index src d = Inr ie \<Longrightarrow> tdim ie = tdim src"
  by (auto simp: expand_index_def expand_as_def expand_def tdim_def list_setitem_Inr view_def
      split: if_splits sum.splits)

lemma expand_index_compatible:
  assumes "index_compatible index src d"
  shows "\<exists>ie. expand_index index src d = Inr ie \<and> shape ie = shape src"
  using assms unfolding index_compatible_def
  by (auto simp: expand_index_same expand_index_lower)

lemma tmax_Inr: "tmax index = Inr m \<Longrightarrow> m = Max (elems index ` set (indices (shape index)))"
proof -
  assume a: "tmax index = Inr m"
  then obtain v vs where vs: "map (elems index) (indices (shape index)) = v # vs"
    and m: "m = fold max vs v"
    by (auto simp: tmax_def split: list.splits)
  have "elems index ` set (indices (shape index)) = set (v # vs)"
    using vs by (metis set_map)
  then show ?thesis using m by (simp only: Max.set_eq_fold)
qed

lemma infer_dim_size_Inr:
  "infer_dim_size index ds = Inr G \<Longrightarrow> G = group_count index ds"
  by (auto simp: infer_dim_size_def group_count_def split: option.splits sum.splits dest: tmax_Inr)

lemma full_Inr:
  "full shp v = Inr t \<longleftrightarrow> (\<forall>n\<in>set shp. 0 \<le> n) \<and> t = \<lparr>shape = map nat shp, elems = (\<lambda>_. v)\<rparr>"
  by (auto simp: full_def)

lemma scatter_add_shape: "scatter_add self d index src = Inr out \<Longrightarrow> shape out = shape self"
  by (auto simp: scatter_add_def split: sum.splits if_splits)

lemma scatter_reduce_amax_shape:
  "scatter_reduce_amax self d index src = Inr out \<Longrightarrow> shape out = shape self"
  by (auto simp: scatter_reduce_amax_def split: sum.splits if_splits)

lemma map_int_nat: "\<forall>n\<in>set xs. 0 \<le> n \<Longrightarrow> map (int \<circ> nat) xs = xs"
  by (induction xs) auto

lemma scatter_sum_shape:
  assumes "scatter_sum src index d ds = Inr out"
  shows "valid_dim d (tdim src) \<and>
         map int (shape out) = (map int (shape src))[norm_dim d (tdim src) := group_count index ds]"
proof -
  from assms obtain G shp ie out0 where
    G: "infer_dim_size index ds = Inr G"
    and shp: "list_setitem (map int (shape src)) d G = Inr shp"
    and z: "zeros shp = Inr (out0 :: 'a tensor)"
    and sc: "scatter_add out0 d ie src = Inr out"
    by (auto simp: scatter_sum_def split: sum.splits)
  from shp have v: "valid_dim d (tdim src)"
    and shp': "shp = (map int (shape src))[norm_dim d (tdim src) := G]"
    by (simp_all add: list_setitem_Inr tdim_def)
  from z have "map int (shape out0) = shp"
    by (auto simp: zeros_def full_Inr map_int_nat)
  with sc shp' v infer_dim_size_Inr[OF G] show ?thesis
    by (simp add: scatter_add_shape)
qed

lemma scatter_max_Inr:
  assumes "scatter_max src index d ds = Inr (out, am)"
  shows "\<exists>G shp ie out0 out1.
     infer_dim_size index ds = Inr G \<and>
     list_setitem (map int (shape src)) d G = Inr shp \<and>
     expand_index index src d = Inr ie \<and>
     full shp NInf = Inr out0 \<and>
     scatter_reduce_amax out0 d ie src = Inr out1 \<and>
     out = twhere (eq_scalar out1 NInf) (zeros_like out1) out1 \<and>
     am = zeros_like out"
  using assms by (auto simp: scatter_max_def Let_def split: sum.splits)

lemma shape_twhere_eq: "shape (twhere (eq_scalar t v) a b) = shape t"
  by (simp add: twhere_def eq_scalar_def unop_def)

lemma scatter_max_shape:
  assumes "scatter_max src index d ds = Inr (out, am)"
  shows "valid_dim d (tdim src) \<and>
         map int (shape out) = (map int (shape src))[norm_dim d (tdim src) := group_count index ds]"
proof -
  from scatter_max_Inr[OF assms] obtain G shp ie out0 out1 where
    G: "infer_dim_size index ds = Inr G"
    and shp: "list_setitem (map int (shape src)) d G = Inr shp"
    and z: "full shp NInf = Inr out0"
    and sc: "scatter_reduce_amax out0 d ie src = Inr out1"
    and out: "out = twhere (eq_scalar out1 NInf) (zeros_like out1) out1"
    by blast
  from shp have v: "valid_dim d (tdim src)"
    and shp': "shp = (map int (shape src))[norm_dim d (tdim src) := G]"
    by (simp_all add: list_setitem_Inr tdim_def)
  from z have "map int (shape out0) = shp"
    by (auto simp: full_Inr map_int_nat)
  with sc shp' v infer_dim_size_Inr[OF G] out show ?thesis
    by (simp add: scatter_reduce_amax_shape shape_twhere_eq)
qed

lemma list_setitem_shift:
  "- int (length xs) \<le> d \<Longrightarrow> d < 0 \<Longrightarrow>
     list_setitem xs (d + int (length xs)) v = list_setitem xs d v"
  by (simp add: list_setitem_def Let_def)

lemma list_getitem_shift:
  "- int (length xs) \<le> d \<Longrightarrow> d < 0 \<Longrightarrow>
     list_getitem xs (d + int (length xs)) = list_getitem xs d"
  by (simp add: list_getitem_def Let_def)

lemma wrap_dim_shift:
  "- int r \<le> d \<Longrightarrow> d < 0 \<Longrightarrow> wrap_dim (d + int r) r = wrap_dim d r"
  by (auto simp: wrap_dim_def Let_def max_def)

lemma expand_index_shift:
  assumes "- int (tdim src) \<le> d" "d < 0"
  shows "expand_index index src (d + int (tdim src)) = expand_index index src d"
proof (cases "tdim index = tdim src")
  case True
  then show ?thesis by (simp add: expand_index_def)
next
  case False
  from assms have "valid_dim d (tdim src)" "valid_dim (d + int (tdim src)) (tdim src)"
    "norm_dim (d + int (tdim src)) (tdim src) = norm_dim d (tdim src)"
    using valid_dim_shift by blast+
  with False show ?thesis by (simp add: expand_index_lower)
qed

lemma scatter_add_shift:
  "- int (tdim self) \<le> d \<Longrightarrow> d < 0 \<Longrightarrow>
     scatter_add self (d + int (tdim self)) index src = scatter_add self d index src"
  by (simp add: scatter_add_def wrap_dim_shift)

lemma scatter_reduce_amax_shift:
  "- int (tdim self) \<le> d \<Longrightarrow> d < 0 \<Longrightarrow>
     scatter_reduce_amax self (d + int (tdim self)) index src = scatter_reduce_amax self d index src"
  by (simp add: scatter_reduce_amax_def wrap_dim_shift)

lemma gather_shift:
  "- int (tdim self) \<le> d \<Longrightarrow> d < 0 \<Longrightarrow>
     gather self (d + int (tdim self)) index = gather self d index"
  by (simp add: gather_def wrap_dim_shift)

lemma full_tdim: "full shp v = Inr t \<Longrightarrow> tdim t = length shp"
  by (auto simp: full_Inr tdim_def)

lemma list_setitem_length: "list_setitem xs d v = Inr ys \<Longrightarrow> length ys = length xs"
  by (auto simp: list_setitem_Inr)

lemma scatter_sum_shift:
  assumes "- int (tdim src) \<le> d" "d < 0"
  shows "scatter_sum src index (d + int (tdim src)) ds = scatter_sum src index d ds"
proof -
  have l: "list_setitem (map int (shape src)) (d + int (tdim src)) G =
           list_setitem (map int (shape src)) d G" for G
    using assms list_setitem_shift[of "map int (shape src)" d G] by (simp add: tdim_def)
  have s: "scatter_add out (d + int (tdim src)) ie src = scatter_add out d ie src"
    if "zeros shp = Inr out" "list_setitem (map int (shape src)) d G = Inr shp"
    for out :: "'a tensor" and shp ie G
  proof -
    from that have "tdim out = tdim src"
      by (auto simp: zeros_def dest!: full_tdim list_setitem_length simp: tdim_def)
    with assms scatter_add_shift[of out d ie src] show ?thesis by simp
  qed
  show ?thesis
    unfolding scatter_sum_def l expand_index_shift[OF assms]
    by (auto split: sum.splits simp: s)
qed

lemma scatter_max_shift:
  assumes "- int (tdim src) \<le> d" "d < 0"
  shows "scatter_max src index (d + int (tdim src)) ds = scatter_max src index d ds"
proof -
  have l: "list_setitem (map int (shape src)) (d + int (tdim src)) G =
           list_setitem (map int (shape src)) d G" for G
    using assms list_setitem_shift[of "map int (shape src)" d G] by (simp add: tdim_def)
  have s: "scatter_reduce_amax out (d + int (tdim src)) ie src = scatter_reduce_amax out d ie src"
    if "full shp NInf = Inr out" "list_setitem (map int (shape src)) d G = Inr shp"
    for out shp ie G
  proof -
    from that have "tdim out = tdim src"
      by (auto dest!: full_tdim list_setitem_length simp: tdim_def)
    with assms scatter_reduce_amax_shift[of out d ie src] show ?thesis by simp
  qed
  show ?thesis
    unfolding scatter_max_def l expand_index_shift[OF assms]
    by (auto split: sum.splits simp: s)
qed

lemma scatter_max_tdim:
  "scatter_max src index d ds = Inr (out, am) \<Longrightarrow> tdim out = tdim src"
  using scatter_max_shape[of src index d ds out am]
  by (auto simp: tdim_def dest: arg_cong[where f = length])

lemma scatter_sum_tdim:
  "scatter_sum src index d ds = Inr out \<Longrightarrow> tdim out = tdim src"
  using scatter_sum_shape[of src index d ds out]
  by (auto simp: tdim_def dest: arg_cong[where f = length])

lemma bshape_rev_length:
  "bshape_rev xs ys = Some zs \<Longrightarrow> length zs = max (length xs) (length ys)"
  by (induction xs ys arbitrary: zs rule: bshape_rev.induct) (auto split: if_splits)

lemma binop_tdim:
  "binop f a b = Inr c \<Longrightarrow> tdim c = max (tdim a) (tdim b)"
  by (auto simp: binop_def broadcast_shapes_def tdim_def split: option.splits
      dest: bshape_rev_length)

lemma gather_tdim: "gather self d index = Inr t \<Longrightarrow> tdim t = tdim index"
  by (auto simp: gather_def tdim_def split: sum.splits if_splits)

lemma scatter_softmax_shift:
  assumes "- int (tdim src) \<le> d" "d < 0"
  shows "scatter_softmax src index (d + int (tdim src)) ds = scatter_softmax src index d ds"
proof -
  have g: "gather t (d + int (tdim src)) ie = gather t d ie" if "tdim t = tdim src"
    for t :: "fval tensor" and ie
    using assms gather_shift[of t d ie] that by simp
  have ss: "scatter_sum t index (d + int (tdim src)) G = scatter_sum t index d G"
    if "tdim t = tdim src" for t :: "fval tensor" and G
    using assms scatter_sum_shift[of t d index G] that by simp
  have c: "tdim (unop fexp sc) = tdim src"
    if "expand_index index src d = Inr ie" "scatter_max src index d G = Inr (mv, am)"
      "gather mv d ie = Inr mg" "binop fsub src mg = Inr sc" for ie G mv am mg sc
    using that
    by (auto simp: unop_def tdim_def[of "\<lparr>shape = _, elems = _\<rparr>"]
        dest!: expand_index_tdim gather_tdim binop_tdim) (simp add: tdim_def)
  show ?thesis
    unfolding scatter_softmax_def expand_index_shift[OF assms] scatter_max_shift[OF assms]
    by (auto split: sum.splits prod.splits simp: g ss c scatter_max_tdim scatter_sum_tdim Let_def)
qed

lemma set_indices_Cons:
  "i # is \<in> set (indices (n # ns)) \<longleftrightarrow> i < n \<and> is \<in> set (indices ns)"
  by (auto simp: indices_def)

lemma set_indices_Nil [simp]: "p \<in> set (indices []) \<longleftrightarrow> p = []"
  by (simp add: indices_def)

lemma indices_Cons_elim:
  "p \<in> set (indices (n # ns)) \<Longrightarrow> \<exists>i is. p = i # is \<and> i < n \<and> is \<in> set (indices ns)"
  by (auto simp: indices_def)

lemma ravel_less: "p \<in> set (indices shp) \<Longrightarrow> ravel shp p < prod_list shp"
proof (induction shp arbitrary: p)
  case Nil
  then show ?case by simp
next
  case (Cons n ns)
  from Cons.prems obtain i "is" where p: "p = i # is" "i < n" "is \<in> set (indices ns)"
    by (blast dest: indices_Cons_elim)
  from Cons.IH[OF p(3)] have "ravel ns is < prod_list ns" .
  then have "i * prod_list ns + ravel ns is < Suc i * prod_list ns" by simp
  also have "\<dots> \<le> n * prod_list ns" using p(2) by (intro mult_le_mono1) simp
  finally show ?case using p by simp
qed

lemma unravel_in: "m < prod_list shp \<Longrightarrow> unravel shp m \<in> set (indices shp)"
proof (induction shp arbitrary: m)
  case Nil
  then show ?case by simp
next
  case (Cons n ns)
  from Cons.prems have pos: "0 < prod_list ns" by (cases "prod_list ns = 0") auto
  from Cons.prems have "m div prod_list ns < n"
    by (simp add: less_mult_imp_div_less)
  moreover have "unravel ns (m mod prod_list ns) \<in> set (indices ns)"
    using pos by (intro Cons.IH) simp
  ultimately show ?case by (simp add: set_indices_Cons)
qed

lemma bcast_pos_in:
  assumes "list_all2 (\<lambda>c s. c = s \<or> c = 1) shp sizes" "i \<in> set (indices sizes)"
  shows "bcast_pos shp i \<in> set (indices shp)"
  using assms
  by (auto simp: set_indices bcast_pos_def list_all2_conv_all_nth)

lemma bcast_pos_id: "i \<in> set (indices shp) \<Longrightarrow> bcast_pos shp i = i"
  by (auto simp: set_indices bcast_pos_def intro!: nth_equalityI)

lemma expand_index_values:
  assumes "index_compatible index src d" "expand_index index src d = Inr ie"
    "i \<in> set (indices (shape src))"
  shows "\<exists>i' \<in> set (indices (shape index)). elems ie i = elems index i'"
proof (cases "tdim index = tdim src")
  case True
  with assms(1) have a: "list_all2 (\<lambda>c s. c = s \<or> c = 1) (shape index) (shape src)"
    by (auto simp: index_compatible_def)
  with True assms(2) have "elems ie i = elems index (bcast_pos (shape index) i)"
    by (auto simp: expand_index_same)
  with bcast_pos_in[OF a assms(3)] show ?thesis by blast
next
  case False
  let ?k = "norm_dim d (tdim src)"
  let ?vs = "(replicate (tdim src) (1::nat))[?k := numel index]"
  from False assms(1) have v: "valid_dim d (tdim src)" and n: "numel index = shape src ! ?k"
    by (auto simp: index_compatible_def)
  from v have k: "?k < tdim src" by (rule norm_dim_less)
  have a: "list_all2 (\<lambda>c s. c = s \<or> c = 1) ?vs (shape src)"
    using k n by (auto simp: list_all2_conv_all_nth tdim_def nth_list_update)
  have "ravel ?vs (bcast_pos ?vs i) < prod_list ?vs"
    by (intro ravel_less bcast_pos_in[OF a assms(3)])
  also have "prod_list ?vs = numel index"
    using k by (simp add: prod_list_update_replicate)
  finally have "unravel (shape index) (ravel ?vs (bcast_pos ?vs i)) \<in> set (indices (shape index))"
    by (intro unravel_in) (simp add: numel_def)
  moreover have "elems ie i = elems index (unravel (shape index) (ravel ?vs (bcast_pos ?vs i)))"
    using expand_index_lower[OF False v] assms(2) by auto
  ultimately show ?thesis by blast
qed

lemma expand_index_same_shape:
  assumes "shape index = shape src" "expand_index index src d = Inr ie"
    "i \<in> set (indices (shape src))"
  shows "elems ie i = elems index i"
proof -
  have "tdim index = tdim src" using assms(1) by (simp add: tdim_def)
  with assms(2) have "elems ie i = elems index (bcast_pos (shape index) i)"
    by (auto simp: expand_index_same split: if_splits)
  with assms(1,3) show ?thesis by (simp add: bcast_pos_id)
qed

lemma scatter_pos_eq:
  assumes "length i = length j" "k < length j" "0 \<le> elems ie i"
  shows "scatter_pos k ie i = j \<longleftrightarrow>
     (\<forall>l \<in> set [0..<length j]. l \<noteq> k \<longrightarrow> i ! l = j ! l) \<and> elems ie i = int (j ! k)"
proof -
  let ?v = "elems ie i"
  have "i[k := nat ?v] = j \<longleftrightarrow> (\<forall>l<length j. (i[k := nat ?v]) ! l = j ! l)"
    using assms(1) by (simp add: list_eq_iff_nth_eq)
  also have "\<dots> \<longleftrightarrow> (\<forall>l<length j. l \<noteq> k \<longrightarrow> i ! l = j ! l) \<and> nat ?v = j ! k"
    using assms(1,2) by (auto simp: nth_list_update)
  also have "nat ?v = j ! k \<longleftrightarrow> ?v = int (j ! k)"
    using assms(3) by auto
  finally have "i[k := nat ?v] = j \<longleftrightarrow>
      (\<forall>l<length j. l \<noteq> k \<longrightarrow> i ! l = j ! l) \<and> ?v = int (j ! k)" .
  moreover have "(\<forall>l \<in> set [0..<length j]. l \<noteq> k \<longrightarrow> i ! l = j ! l) \<longleftrightarrow>
      (\<forall>l<length j. l \<noteq> k \<longrightarrow> i ! l = j ! l)"
    by auto
  ultimately show ?thesis unfolding scatter_pos_def by (simp only:)
qed

lemma scatter_add_fold:
  assumes "wrap_dim d (tdim self) = Inr k" "numel index = 0 \<or> scatter_check self k index src"
  shows "scatter_add self d index src =
     Inr (self\<lparr>elems :=
            fold (\<lambda>i f. f(scatter_pos k index i := f (scatter_pos k index i) + elems src i))
              (indices (shape index)) (elems self)\<rparr>)"
proof (cases "numel index = 0")
  case True
  then have "indices (shape index) = []"
    using length_indices[of "shape index"] by (simp add: numel_def)
  with True assms(1) show ?thesis by (simp add: scatter_add_def)
next
  case False
  with assms show ?thesis by (simp add: scatter_add_def)
qed

lemma filter_scatter_pos:
  assumes "length j = length (shape ie)" "k < length j"
    "\<forall>i\<in>set (indices (shape ie)). 0 \<le> elems ie i"
  shows "filter (\<lambda>i. scatter_pos k ie i = j) (indices (shape ie)) = contributors ie k j"
  unfolding contributors_def
proof (rule filter_cong[OF refl])
  fix i assume i: "i \<in> set (indices (shape ie))"
  then have a: "length i = length j" using assms(1) by (simp add: set_indices)
  have b: "0 \<le> elems ie i" using i assms(3) by blast
  show "(scatter_pos k ie i = j) =
      ((\<forall>l \<in> set [0..<length j]. l \<noteq> k \<longrightarrow> i ! l = j ! l) \<and> elems ie i = int (j ! k))"
    by (rule scatter_pos_eq[OF a assms(2) b])
qed

lemma zeros_update:
  "zeros ((map int xs)[k := int G]) = Inr \<lparr>shape = xs[k := G], elems = (\<lambda>_. 0)\<rparr>"
proof -
  have "(map int xs)[k := int G] = map int (xs[k := G])" by (simp add: map_update)
  then show ?thesis by (simp add: zeros_def full_def comp_def)
qed

lemma full_update:
  "full ((map int xs)[k := int G]) v = Inr \<lparr>shape = xs[k := G], elems = (\<lambda>_. v)\<rparr>"
proof -
  have "(map int xs)[k := int G] = map int (xs[k := G])" by (simp add: map_update)
  then show ?thesis by (simp add: full_def comp_def)
qed

lemma scatter_check_expanded:
  assumes "k < length (shape src)" "shape ie = shape src"
    "\<forall>i\<in>set (indices (shape ie)). 0 \<le> elems ie i \<and> elems ie i < int G"
  shows "scatter_check \<lparr>shape = (shape src)[k := G], elems = e\<rparr> k ie src"
  using assms by (simp add: scatter_check_def tdim_def list_all2_conv_all_nth)

lemma fold_reset:
  "fold (\<lambda>i f. f(p i := c)) is f0 j = (if j \<in> p ` set is then c else f0 j)"
  by (induction "is" arbitrary: f0) auto

lemma fold_scatter_amax:
  "fold (\<lambda>i f. f(p i := fmax (f (p i)) (s i))) is f0 j =
     foldl fmax (f0 j) (map s (filter (\<lambda>i. p i = j) is))"
  by (induction "is" arbitrary: f0) simp_all






lemma foldl_fmax_all_NInf: "\<forall>x\<in>set xs. x = NInf \<Longrightarrow> foldl fmax NInf xs = NInf"
  by (induction xs) (auto simp: fmax_def)

lemma scatter_reduce_amax_fold:
  assumes "wrap_dim d (tdim self) = Inr k" "numel index = 0 \<or> scatter_check self k index src"
  shows "scatter_reduce_amax self d index src =
     Inr (self\<lparr>elems :=
            fold (\<lambda>i f. f(scatter_pos k index i := fmax (f (scatter_pos k index i)) (elems src i)))
              (indices (shape index))
              (fold (\<lambda>i f. f(scatter_pos k index i := NInf))
                 (indices (shape index)) (elems self))\<rparr>)"
proof (cases "numel index = 0")
  case True
  then have "indices (shape index) = []"
    using length_indices[of "shape index"] by (simp add: numel_def)
  with True assms(1) show ?thesis by (simp add: scatter_reduce_amax_def)
next
  case False
  with assms show ?thesis by (simp add: scatter_reduce_amax_def)
qed

lemma scatter_max_value:
  assumes v: "valid_dim d (tdim src)"
    and c: "index_compatible index src d"
    and r: "\<forall>i\<in>set (indices (shape index)). 0 \<le> elems index i \<and> elems index i < int G"
  shows "\<exists>ie out am.
     expand_index index src d = Inr ie \<and> shape ie = shape src \<and>
     (shape index = shape src \<longrightarrow> (\<forall>i\<in>set (indices (shape src)). elems ie i = elems index i)) \<and>
     scatter_max src index d (Some (int G)) = Inr (out, am) \<and>
     shape out = (shape src)[norm_dim d (tdim src) := G] \<and>
     (\<forall>j\<in>set (indices (shape out)).
        elems out j =
          drop_ninf (foldl fmax NInf
             (map (elems src) (contributors ie (norm_dim d (tdim src)) j))))"
proof -
  let ?k = "norm_dim d (tdim src)"
  let ?z = "\<lparr>shape = (shape src)[?k := G], elems = (\<lambda>_. NInf)\<rparr>"
  have k: "?k < length (shape src)" using norm_dim_less[OF v] by (simp add: tdim_def)
  from expand_index_compatible[OF c] obtain ie where
    ie: "expand_index index src d = Inr ie" and sie: "shape ie = shape src" by blast
  have same: "shape index = shape src \<longrightarrow> (\<forall>i\<in>set (indices (shape src)). elems ie i = elems index i)"
    using expand_index_same_shape[OF _ ie] by blast
  have rng: "\<forall>i\<in>set (indices (shape ie)). 0 \<le> elems ie i \<and> elems ie i < int G"
    using expand_index_values[OF c ie] r sie by fastforce
  have ls: "list_setitem (map int (shape src)) d (int G) = Inr ((map int (shape src))[?k := int G])"
    using v list_setitem_valid[of d "map int (shape src)" "int G"] by (simp add: tdim_def)
  have w: "wrap_dim d (tdim ?z) = Inr ?k"
    using wrap_dim_valid[OF v] by (simp add: tdim_def)
  let ?f = "fold (\<lambda>i f. f(scatter_pos ?k ie i := fmax (f (scatter_pos ?k ie i)) (elems src i)))
              (indices (shape ie))
              (fold (\<lambda>i f. f(scatter_pos ?k ie i := NInf)) (indices (shape ie)) (\<lambda>_. NInf))"
  let ?y = "?z\<lparr>elems := ?f\<rparr>"
  let ?o = "twhere (eq_scalar ?y NInf) (zeros_like ?y) ?y"
  have sa: "scatter_reduce_amax ?z d ie src = Inr ?y"
    using scatter_reduce_amax_fold[OF w disjI2[OF scatter_check_expanded[OF k sie rng]]] by simp
  have ss: "scatter_max src index d (Some (int G)) = Inr (?o, zeros_like ?o)"
    by (simp add: scatter_max_def infer_dim_size_def ls ie full_update sa Let_def)
  have sh: "shape ?o = (shape src)[?k := G]"
    by (simp add: shape_twhere_eq)
  have val: "elems ?o j = drop_ninf (foldl fmax NInf (map (elems src) (contributors ie ?k j)))"
    if j: "j \<in> set (indices ((shape src)[?k := G]))" for j
  proof -
    have lj: "length j = length (shape ie)" using j sie by (simp add: set_indices)
    have "?f j = foldl fmax NInf (map (elems src) (filter (\<lambda>i. scatter_pos ?k ie i = j) (indices (shape ie))))"
      by (simp add: fold_scatter_amax fold_reset)
    also have "filter (\<lambda>i. scatter_pos ?k ie i = j) (indices (shape ie)) = contributors ie ?k j"
      using lj k sie rng by (intro filter_scatter_pos) auto
    finally have e: "?f j = foldl fmax NInf (map (elems src) (contributors ie ?k j))" .
    have "elems ?o j = drop_ninf (?f j)"
      by (simp add: twhere_def eq_scalar_def unop_def zeros_like_def drop_ninf_def)
    with e show ?thesis by simp
  qed
  show ?thesis
    using ie sie same ss sh val
    by (intro exI[of _ ie] exI[of _ ?o] exI[of _ "zeros_like ?o"]) simp
qed

lemma ex_shapes: "shape ex_src = [4]" "shape ex_index = [4]" "shape ex_fsrc = [4]" "shape ex_ninf = [4]"
  by (simp_all add: ex_src_def ex_index_def ex_fsrc_def ex_ninf_def vec_def)

lemma ex_valid: "valid_dim 0 (tdim ex_src)" "valid_dim 0 (tdim ex_fsrc)" "valid_dim 0 (tdim ex_ninf)"
  by (simp_all add: valid_dim_def tdim_def ex_shapes)

lemma ex_compatible: "index_compatible ex_index ex_src 0" "index_compatible ex_index ex_fsrc 0"
  "index_compatible ex_index ex_ninf 0"
  by (simp_all add: index_compatible_def tdim_def ex_shapes)

lemma ex_range: "\<forall>i\<in>set (indices (shape ex_index)). 0 \<le> elems ex_index i \<and> elems ex_index i < int 2"
  by (simp add: indices_def ex_index_def vec_def)

lemma ex_norm: "norm_dim 0 (tdim ex_src) = 0" "norm_dim 0 (tdim ex_fsrc) = 0" "norm_dim 0 (tdim ex_ninf) = 0"
  by (simp_all add: norm_dim_def)

lemma ex_contributors:
  assumes "shape ie = [4]" "\<forall>i\<in>set (indices [4]). elems ie i = elems ex_index i"
  shows "contributors ie 0 [0] = [[0], [1]]" "contributors ie 0 [1] = [[2], [3]]"
proof -
  have c: "contributors ie 0 j =
      filter (\<lambda>i. (\<forall>l \<in> set [0..<length j]. l \<noteq> 0 \<longrightarrow> i ! l = j ! l) \<and> elems ex_index i = int (j ! 0))
        (indices [4])" for j
    unfolding contributors_def assms(1) using assms(2) by (intro filter_cong) auto
  show "contributors ie 0 [0] = [[0], [1]]" "contributors ie 0 [1] = [[2], [3]]"
    unfolding c by code_simp+
qed

lemma ex_positions: "[0] \<in> set (indices [2])" "[1] \<in> set (indices [2])"
  by code_simp+

lemma tmax_empty: "numel index = 0 \<Longrightarrow> tmax index = Inl RuntimeError"
  using length_indices[of "shape index"] by (simp add: tmax_def numel_def)

lemma ex_contributors_ninf:
  assumes "shape ie = [4]" "\<forall>i\<in>set (indices [4]). elems ie i = elems ex_index i"
  shows "map (elems ex_fsrc) (contributors ie 0 [0]) = [Fin 1, Fin 2]"
    "map (elems ex_fsrc) (contributors ie 0 [1]) = [Fin 3, Fin 4]"
    "map (elems ex_ninf) (contributors ie 0 [0]) = [NInf, NInf]"
  unfolding ex_contributors[OF assms] by (simp_all add: ex_fsrc_def ex_ninf_def vec_def)

lemma ex_success:
  "\<not> isl (scatter_sum ex_src ex_index 0 None)"
  "\<not> isl (scatter_max ex_fsrc ex_index 0 None)"
  by code_simp+

lemma ex_group_count: "group_count ex_index None = 2"
  by code_simp

lemma ravel_ones_zeros: "ravel (replicate r (Suc 0)) (replicate r 0) = 0"
  by (induction r) simp_all

lemma prod_list_ones: "prod_list (replicate r (Suc 0)) = Suc 0"
  by (induction r) simp_all

lemma ravel_one_hot:
  "k < r \<Longrightarrow> ravel ((replicate r (Suc 0))[k := n]) ((replicate r 0)[k := x]) = x"
proof (induction r arbitrary: k)
  case 0
  then show ?case by simp
next
  case (Suc r)
  show ?case
  proof (cases k)
    case 0
    then show ?thesis by (simp add: ravel_ones_zeros prod_list_ones)
  next
    case (Suc k')
    with Suc.prems have "k' < r" by simp
    from Suc.IH[OF this] Suc show ?thesis by simp
  qed
qed

lemma bcast_pos_one_hot:
  assumes "k < length sizes" "i \<in> set (indices sizes)" "n = sizes ! k"
  shows "bcast_pos ((replicate (length sizes) (Suc 0))[k := n]) i = (replicate (length sizes) 0)[k := i ! k]"
proof -
  from assms(2) have l: "length i = length sizes" and b: "\<forall>l<length sizes. i ! l < sizes ! l"
    by (simp_all add: set_indices)
  show ?thesis
    using assms(1,3) l b
    by (auto simp: bcast_pos_def nth_list_update intro!: nth_equalityI)
qed

lemma expand_index_lower_elems:
  assumes "tdim index \<noteq> tdim src" "valid_dim d (tdim src)"
    "numel index = shape src ! norm_dim d (tdim src)"
    "expand_index index src d = Inr ie" "i \<in> set (indices (shape src))"
  shows "elems ie i = elems index (unravel (shape index) (i ! norm_dim d (tdim src)))"
proof -
  let ?k = "norm_dim d (tdim src)"
  have k: "?k < length (shape src)" using norm_dim_less[OF assms(2)] by (simp add: tdim_def)
  have "elems ie i = elems index (unravel (shape index)
      (ravel ((replicate (length (shape src)) (Suc 0))[?k := numel index])
         (bcast_pos ((replicate (length (shape src)) (Suc 0))[?k := numel index]) i)))"
    using expand_index_lower[OF assms(1,2)] assms(4) by (auto simp: tdim_def)
  also have "bcast_pos ((replicate (length (shape src)) (Suc 0))[?k := numel index]) i =
      (replicate (length (shape src)) 0)[?k := i ! ?k]"
    by (rule bcast_pos_one_hot[OF k assms(5,3)])
  also have "ravel ((replicate (length (shape src)) (Suc 0))[?k := numel index])
      ((replicate (length (shape src)) 0)[?k := i ! ?k]) = i ! ?k"
    by (rule ravel_one_hot[OF k])
  finally show ?thesis .
qed

lemma expand_index_same_elems:
  assumes "tdim index = tdim src" "expand_index index src d = Inr ie"
  shows "elems ie i = elems index (bcast_pos (shape index) i)"
  using assms by (auto simp: expand_index_same split: if_splits)

lemma fold_scatter_plus:
  "fold (\<lambda>i f. f(p i := f (p i) + s i)) is f0 j =
     foldl (+) (f0 j) (map s (filter (\<lambda>i. p i = j) is))"
  by (induction "is" arbitrary: f0) simp_all

lemma expand_index_value:
  assumes "index_compatible index src d" "expand_index index src d = Inr ie"
    "i \<in> set (indices (shape src))"
  shows "elems ie i = index_value index src (norm_dim d (tdim src)) i"
proof (cases "tdim index = tdim src")
  case True
  then show ?thesis
    using expand_index_same_elems[OF True assms(2)] by (simp add: index_value_def)
next
  case False
  with assms(1) have "valid_dim d (tdim src)" "numel index = shape src ! norm_dim d (tdim src)"
    by (auto simp: index_compatible_def)
  from expand_index_lower_elems[OF False this assms(2,3)] False show ?thesis
    by (simp add: index_value_def)
qed

lemma contributors_group_positions:
  assumes "index_compatible index src d" "expand_index index src d = Inr ie"
  shows "contributors ie (norm_dim d (tdim src)) j =
         group_positions index src (norm_dim d (tdim src)) j"
proof -
  from expand_index_compatible[OF assms(1)] assms(2) have s: "shape ie = shape src" by auto
  show ?thesis
    unfolding contributors_def group_positions_def s
    by (rule filter_cong[OF refl]) (simp add: expand_index_value[OF assms])
qed

lemma scatter_sum_value:
  fixes src :: "'a::{zero,plus} tensor"
  assumes v: "valid_dim d (tdim src)"
    and c: "index_compatible index src d"
    and r: "\<forall>i\<in>set (indices (shape index)). 0 \<le> elems index i \<and> elems index i < int G"
  shows "\<exists>ie out.
     expand_index index src d = Inr ie \<and> shape ie = shape src \<and>
     (\<forall>i\<in>set (indices (shape ie)). 0 \<le> elems ie i \<and> elems ie i < int G) \<and>
     scatter_sum src index d (Some (int G)) = Inr out \<and>
     shape out = (shape src)[norm_dim d (tdim src) := G] \<and>
     (\<forall>j\<in>set (indices (shape out)).
        elems out j = foldl (+) 0 (map (elems src) (contributors ie (norm_dim d (tdim src)) j)))"
proof -
  let ?k = "norm_dim d (tdim src)"
  let ?z = "\<lparr>shape = (shape src)[?k := G], elems = (\<lambda>_. 0::'a)\<rparr>"
  have k: "?k < length (shape src)" using norm_dim_less[OF v] by (simp add: tdim_def)
  from expand_index_compatible[OF c] obtain ie where
    ie: "expand_index index src d = Inr ie" and sie: "shape ie = shape src" by blast
  have rng: "\<forall>i\<in>set (indices (shape ie)). 0 \<le> elems ie i \<and> elems ie i < int G"
    using expand_index_values[OF c ie] r sie by fastforce
  have ls: "list_setitem (map int (shape src)) d (int G) = Inr ((map int (shape src))[?k := int G])"
    using v list_setitem_valid[of d "map int (shape src)" "int G"] by (simp add: tdim_def)
  have w: "wrap_dim d (tdim ?z) = Inr ?k"
    using wrap_dim_valid[OF v] by (simp add: tdim_def)
  let ?f = "fold (\<lambda>i f. f(scatter_pos ?k ie i := f (scatter_pos ?k ie i) + elems src i))
              (indices (shape ie)) (\<lambda>_. 0::'a)"
  have sa: "scatter_add ?z d ie src = Inr (?z\<lparr>elems := ?f\<rparr>)"
    using scatter_add_fold[OF w disjI2[OF scatter_check_expanded[OF k sie rng]]] by simp
  have ss: "scatter_sum src index d (Some (int G)) = Inr (?z\<lparr>elems := ?f\<rparr>)"
    by (simp add: scatter_sum_def infer_dim_size_def ls ie zeros_update sa)
  have val: "?f j = foldl (+) 0 (map (elems src) (contributors ie ?k j))"
    if j: "j \<in> set (indices ((shape src)[?k := G]))" for j
  proof -
    have lj: "length j = length (shape ie)" using j sie by (simp add: set_indices)
    have "?f j = foldl (+) 0 (map (elems src) (filter (\<lambda>i. scatter_pos ?k ie i = j) (indices (shape ie))))"
      by (simp add: fold_scatter_plus)
    also have "filter (\<lambda>i. scatter_pos ?k ie i = j) (indices (shape ie)) = contributors ie ?k j"
      using lj k sie rng by (intro filter_scatter_pos) auto
    finally show ?thesis .
  qed
  show ?thesis
    using ie sie rng ss val by (intro exI[of _ ie] exI[of _ "?z\<lparr>elems := ?f\<rparr>"]) simp
qed

lemma foldl_plus_sum:
  fixes f :: "'b \<Rightarrow> 'a::comm_monoid_add"
  assumes "distinct xs"
  shows "foldl (+) 0 (map f xs) = (\<Sum>x\<in>set xs. f x)"
proof -
  have "foldl (+) a (map f xs) = a + sum_list (map f xs)" for a
    by (induction xs arbitrary: a) (simp_all add: add.assoc)
  then show ?thesis using assms by (simp add: sum.distinct_set_conv_list)
qed

lemma distinct_group_positions: "distinct (group_positions index src k j)"
  by (simp add: group_positions_def distinct_indices)

























lemma ex_sum_groups:
  "foldl (+) 0 (map (elems ex_src) (group_positions ex_index ex_src (norm_dim 0 (tdim ex_src)) [0])) = 3"
  "foldl (+) 0 (map (elems ex_src) (group_positions ex_index ex_src (norm_dim 0 (tdim ex_src)) [1])) = 7"
  by code_simp+





lemma ex_cube_hyps:
  "valid_dim 1 (tdim ex_cube)"
  "index_compatible ex_index3 ex_cube 1"
  "\<forall>i\<in>set (indices (shape ex_index3)). 0 \<le> elems ex_index3 i \<and> elems ex_index3 i < int 2"
proof -
  have s: "shape ex_cube = [2, 3, 4]" "shape ex_index3 = [3]"
    by (simp_all add: ex_cube_def ex_index3_def vec_def)
  show "valid_dim 1 (tdim ex_cube)" by (simp add: valid_dim_def tdim_def s)
  show "index_compatible ex_index3 ex_cube 1"
    by (simp add: index_compatible_def tdim_def numel_def valid_dim_def norm_dim_def s)
  show "\<forall>i\<in>set (indices (shape ex_index3)). 0 \<le> elems ex_index3 i \<and> elems ex_index3 i < int 2"
    by (simp add: indices_def ex_index3_def vec_def)
qed

lemma ex_cube_groups:
  "foldl (+) 0 (map (elems ex_cube)
     (group_positions ex_index3 ex_cube (norm_dim 1 (tdim ex_cube)) [1, 0, 3])) = 38"
  "foldl (+) 0 (map (elems ex_cube)
     (group_positions ex_index3 ex_cube (norm_dim 1 (tdim ex_cube)) [0, 1, 2])) = 6"
  "(shape ex_cube)[norm_dim 1 (tdim ex_cube) := 2] = [2, 2, 4]"
  "[1, 0, 3] \<in> set (indices [2, 2, 4])" "[0, 1, 2] \<in> set (indices [2, 2, 4])"
  by code_simp+

section \<open>The properties\<close>

text \<open>
  C5. When the index is compatible with \<open>src\<close> (same rank and broadcastable, or of another
  rank with as many elements as \<open>src\<close> has positions along the valid axis \<open>d\<close>),
  \<^verbatim>\<open>_expand_index\<close> returns an index whose shape is exactly the shape of \<open>src\<close>, the
  reduction axis included. Its element at a position is the element of the index at the
  broadcast position when the ranks agree, and otherwise the element of the index whose
  row-major number is the coordinate along the axis: the expanded index is then constant
  along every other axis.
\<close>

theorem expand_index_shape:
  assumes "index_compatible index src d"
  shows "\<exists>ie. expand_index index src d = Inr ie \<and> shape ie = shape src \<and>
     (\<forall>i \<in> set (indices (shape src)).
        elems ie i =
          (if tdim index = tdim src then elems index (bcast_pos (shape index) i)
           else elems index (unravel (shape index) (i ! norm_dim d (tdim src)))))"
proof -
  from expand_index_compatible[OF assms] obtain ie where
    ie: "expand_index index src d = Inr ie" "shape ie = shape src" by blast
  have "elems ie i =
          (if tdim index = tdim src then elems index (bcast_pos (shape index) i)
           else elems index (unravel (shape index) (i ! norm_dim d (tdim src))))"
    if "i \<in> set (indices (shape src))" for i
  proof (cases "tdim index = tdim src")
    case True
    then show ?thesis using expand_index_same_elems[OF True ie(1)] by simp
  next
    case False
    with assms have "valid_dim d (tdim src)" "numel index = shape src ! norm_dim d (tdim src)"
      by (auto simp: index_compatible_def)
    from expand_index_lower_elems[OF False this ie(1) that] False show ?thesis by simp
  qed
  with ie show ?thesis by blast
qed

theorem expand_index_shape_witness:
  "index_compatible ex_index3 ex_cube 1 \<and>
   (\<exists>ie. expand_index ex_index3 ex_cube 1 = Inr ie \<and> shape ie = [2, 3, 4] \<and>
      elems ie [1, 0, 3] = 0 \<and> elems ie [0, 1, 2] = 1 \<and> elems ie [1, 2, 0] = 0)"
proof -
  have h: "index_compatible ex_index3 ex_cube 1"
    by (simp add: index_compatible_def tdim_def numel_def valid_dim_def norm_dim_def
        ex_index3_def ex_cube_def vec_def)
  have t: "tdim ex_index3 \<noteq> tdim ex_cube" "norm_dim 1 (tdim ex_cube) = 1" "shape ex_cube = [2, 3, 4]"
    "shape ex_index3 = [3]"
    by (simp_all add: tdim_def norm_dim_def ex_index3_def ex_cube_def vec_def)
  have p: "[1, 0, 3] \<in> set (indices [2, 3, 4])" "[0, 1, 2] \<in> set (indices [2, 3, 4])"
    "[1, 2, 0] \<in> set (indices [2, 3, 4])"
    by code_simp+
  have u: "elems ex_index3 (unravel [3] ([1, 0, 3] ! 1)) = 0"
    "elems ex_index3 (unravel [3] ([0, 1, 2] ! 1)) = 1"
    "elems ex_index3 (unravel [3] ([1, 2, 0] ! 1)) = 0"
    by (simp_all add: ex_index3_def vec_def)
  from expand_index_shape[OF h] obtain ie where
    ie: "expand_index ex_index3 ex_cube 1 = Inr ie" "shape ie = [2, 3, 4]"
    and v: "\<forall>i \<in> set (indices [2, 3, 4]). elems ie i = elems ex_index3 (unravel [3] (i ! 1))"
    unfolding t by (auto simp: t(1))
  from v p u have "elems ie [1, 0, 3] = 0" "elems ie [0, 1, 2] = 1" "elems ie [1, 2, 0] = 0"
    by (metis)+
  with h ie show ?thesis by blast
qed

text \<open>
  C10. When the index has no elements and no group count is supplied, each of
  \<^verbatim>\<open>scatter_sum\<close>, \<^verbatim>\<open>scatter_max\<close> and \<^verbatim>\<open>scatter_softmax\<close> fails with the
  runtime's error for the maximum of an empty tensor, whatever the source and the axis.
\<close>

theorem empty_index_fails:
  assumes "numel index = 0"
  shows "scatter_sum src index d None = Inl RuntimeError \<and>
         scatter_max src' index d None = Inl RuntimeError \<and>
         scatter_softmax src' index d None = Inl RuntimeError"
  using assms
  by (simp add: scatter_sum_def scatter_max_def scatter_softmax_def infer_dim_size_def tmax_empty)

theorem empty_index_fails_witness:
  "numel ex_empty = 0 \<and>
   scatter_sum ex_src ex_empty 0 None = Inl RuntimeError \<and>
   scatter_max ex_fsrc ex_empty 0 None = Inl RuntimeError \<and>
   scatter_softmax ex_fsrc ex_empty 0 None = Inl RuntimeError"
proof -
  have h: "numel ex_empty = 0" by (simp add: numel_def ex_empty_def vec_def)
  from empty_index_fails[OF h] show ?thesis using h by simp
qed

text \<open>
  C6. Whenever \<^verbatim>\<open>scatter_sum\<close> or \<^verbatim>\<open>scatter_max\<close> returns, the shape of the (first)
  output is the shape of the source with the size at the normalised reduction axis
  replaced by the group count: the supplied \<open>dim_size\<close>, or the maximum of the index
  plus one when none is supplied.
\<close>

theorem output_shape:
  "(scatter_sum src index d ds = Inr out \<longrightarrow>
      map int (shape out) =
        (map int (shape src))[norm_dim d (tdim src) := group_count index ds]) \<and>
   (scatter_max src' index d ds = Inr (out', am) \<longrightarrow>
      map int (shape out') =
        (map int (shape src'))[norm_dim d (tdim src') := group_count index ds])"
  using scatter_sum_shape scatter_max_shape by blast

theorem output_shape_witness:
  "\<exists>out out' am.
     scatter_sum ex_src ex_index 0 None = Inr out \<and> shape out = [2] \<and>
     scatter_max ex_fsrc ex_index 0 None = Inr (out', am) \<and> shape out' = [2]"
proof -
  from ex_success(1) obtain out where o: "scatter_sum ex_src ex_index 0 None = Inr out"
    by (cases "scatter_sum ex_src ex_index 0 None") auto
  from ex_success(2) obtain out' am where o': "scatter_max ex_fsrc ex_index 0 None = Inr (out', am)"
    by (cases "scatter_max ex_fsrc ex_index 0 None") auto
  from output_shape[of ex_src ex_index 0 None out ex_fsrc out' am] o o'
  have "map int (shape out) = [2]" "map int (shape out') = [2]"
    by (simp_all add: ex_norm ex_shapes ex_group_count)
  then have "shape out = [2]" "shape out' = [2]"
    by (auto simp: map_eq_Cons_conv)
  with o o' show ?thesis by blast
qed

text \<open>
  C7. Whenever \<^verbatim>\<open>scatter_max\<close> returns, its second output is an integer tensor of the
  shape of the first output, and every one of its entries is zero, whatever the source
  and the index hold.
\<close>

theorem scatter_max_argmax_zeros:
  "scatter_max src index d ds = Inr (out, am) \<Longrightarrow>
     shape am = shape out \<and> (\<forall>i. elems am i = 0)"
  by (auto dest!: scatter_max_Inr simp: zeros_like_def)

theorem scatter_max_argmax_zeros_witness:
  "\<exists>out am. scatter_max ex_fsrc ex_index 0 None = Inr (out, am) \<and>
     shape am = shape out \<and> (\<forall>i. elems am i = 0)"
proof -
  from ex_success(2) obtain out am where o: "scatter_max ex_fsrc ex_index 0 None = Inr (out, am)"
    by (cases "scatter_max ex_fsrc ex_index 0 None") auto
  from scatter_max_argmax_zeros[OF o] o show ?thesis by blast
qed

text \<open>
  C8. For a source of rank \<open>r\<close> and a negative axis \<open>-r \<le> d < 0\<close>, each of
  \<^verbatim>\<open>scatter_sum\<close>, \<^verbatim>\<open>scatter_max\<close> and \<^verbatim>\<open>scatter_softmax\<close> returns what the same
  call returns with \<open>d\<close> replaced by the non-negative axis \<open>d + r\<close> (the same result, or
  the same error), for every index and every group count.
\<close>

theorem negative_dim_normalised:
  assumes "tdim src = r" and "tdim src' = r" and "- int r \<le> d" and "d < 0"
  shows "scatter_sum src index d ds = scatter_sum src index (d + int r) ds \<and>
         scatter_max src' index d ds = scatter_max src' index (d + int r) ds \<and>
         scatter_softmax src' index d ds = scatter_softmax src' index (d + int r) ds"
  using assms scatter_sum_shift[of src d index ds] scatter_max_shift[of src' d index ds]
    scatter_softmax_shift[of src' d index ds]
  by simp

theorem negative_dim_normalised_witness:
  "scatter_sum ex_src ex_index (- 1) None = scatter_sum ex_src ex_index 0 None \<and>
   scatter_max ex_fsrc ex_index (- 1) None = scatter_max ex_fsrc ex_index 0 None \<and>
   scatter_softmax ex_fsrc ex_index (- 1) None = scatter_softmax ex_fsrc ex_index 0 None"
proof -
  have h: "tdim ex_src = 1" "tdim ex_fsrc = 1" "- int 1 \<le> (- 1 :: int)" "(- 1 :: int) < 0"
    by (simp_all add: tdim_def ex_shapes)
  from negative_dim_normalised[OF h, of ex_index None] show ?thesis by simp
qed

text \<open>
  C1. For a valid axis \<open>d\<close>, an index compatible with \<open>src\<close> whose values all lie in
  \<open>[0, G)\<close>, and elements of any type with a zero and an addition (integer or floating
  point), \<^verbatim>\<open>scatter_sum(src, index, d, G)\<close> returns a tensor of the shape of \<open>src\<close> with
  \<open>G\<close> at the axis. At every output position \<open>j\<close> it holds the sum, accumulated from 0 in
  row-major order, of the source elements at exactly the positions of the group of \<open>j\<close>:
  those that agree with \<open>j\<close> off the axis and whose index value is the coordinate of \<open>j\<close>
  along the axis. A position whose group is empty holds exactly 0. Where addition is
  associative and commutative, the accumulated sum is the sum over the set of these
  positions (\<open>foldl_plus_sum\<close>, \<open>distinct_group_positions\<close>).
\<close>

theorem scatter_sum_correct:
  fixes src :: "'a::{zero,plus} tensor"
  assumes "valid_dim d (tdim src)"
    and "index_compatible index src d"
    and "\<forall>i\<in>set (indices (shape index)). 0 \<le> elems index i \<and> elems index i < int G"
  shows "\<exists>out.
     scatter_sum src index d (Some (int G)) = Inr out \<and>
     shape out = (shape src)[norm_dim d (tdim src) := G] \<and>
     (\<forall>j\<in>set (indices (shape out)).
        elems out j =
          foldl (+) 0 (map (elems src) (group_positions index src (norm_dim d (tdim src)) j)) \<and>
        (group_positions index src (norm_dim d (tdim src)) j = [] \<longrightarrow> elems out j = 0))"
proof -
  from scatter_sum_value[OF assms] obtain ie out where
    ie: "expand_index index src d = Inr ie"
    and out: "scatter_sum src index d (Some (int G)) = Inr out"
      "shape out = (shape src)[norm_dim d (tdim src) := G]"
    and val: "\<forall>j\<in>set (indices (shape out)).
        elems out j = foldl (+) 0 (map (elems src) (contributors ie (norm_dim d (tdim src)) j))"
    by blast
  from val have "\<forall>j\<in>set (indices (shape out)).
        elems out j =
          foldl (+) 0 (map (elems src) (group_positions index src (norm_dim d (tdim src)) j)) \<and>
        (group_positions index src (norm_dim d (tdim src)) j = [] \<longrightarrow> elems out j = 0)"
    unfolding contributors_group_positions[OF assms(2) ie] by auto
  with out show ?thesis by blast
qed

theorem scatter_sum_correct_witness:
  "(\<exists>out. scatter_sum ex_src ex_index 0 (Some 2) = Inr out \<and>
      shape out = [2] \<and> elems out [0] = 3 \<and> elems out [1] = 7) \<and>
   (\<exists>out. scatter_sum ex_cube ex_index3 1 (Some 2) = Inr out \<and>
      shape out = [2, 2, 4] \<and> elems out [1, 0, 3] = 38 \<and> elems out [0, 1, 2] = 6)"
proof
  from scatter_sum_correct[OF ex_valid(1) ex_compatible(1) ex_range] obtain out where
    out: "scatter_sum ex_src ex_index 0 (Some (int 2)) = Inr out"
    and sh: "shape out = (shape ex_src)[norm_dim 0 (tdim ex_src) := 2]"
    and val: "\<forall>j\<in>set (indices (shape out)).
        elems out j =
          foldl (+) 0 (map (elems ex_src) (group_positions ex_index ex_src (norm_dim 0 (tdim ex_src)) j))"
    by blast
  have sh2: "shape out = [2]" using sh unfolding ex_norm ex_shapes by simp
  have "elems out [0] = 3"
    using val ex_positions(1) unfolding sh2 ex_sum_groups(1)[symmetric] by blast
  moreover have "elems out [1] = 7"
    using val ex_positions(2) unfolding sh2 ex_sum_groups(2)[symmetric] by blast
  ultimately show "\<exists>out. scatter_sum ex_src ex_index 0 (Some 2) = Inr out \<and>
      shape out = [2] \<and> elems out [0] = 3 \<and> elems out [1] = 7"
    using out sh2 by simp
next
  from scatter_sum_correct[OF ex_cube_hyps] obtain out where
    out: "scatter_sum ex_cube ex_index3 1 (Some (int 2)) = Inr out"
    and sh: "shape out = (shape ex_cube)[norm_dim 1 (tdim ex_cube) := 2]"
    and val: "\<forall>j\<in>set (indices (shape out)).
        elems out j =
          foldl (+) 0 (map (elems ex_cube)
            (group_positions ex_index3 ex_cube (norm_dim 1 (tdim ex_cube)) j))"
    by blast
  have sh2: "shape out = [2, 2, 4]" using sh unfolding ex_cube_groups(3) .
  have "elems out [1, 0, 3] = 38"
    using val ex_cube_groups(4) unfolding sh2 ex_cube_groups(1)[symmetric] by blast
  moreover have "elems out [0, 1, 2] = 6"
    using val ex_cube_groups(5) unfolding sh2 ex_cube_groups(2)[symmetric] by blast
  ultimately show "\<exists>out. scatter_sum ex_cube ex_index3 1 (Some 2) = Inr out \<and>
      shape out = [2, 2, 4] \<and> elems out [1, 0, 3] = 38 \<and> elems out [0, 1, 2] = 6"
    using out sh2 by simp
qed

text \<open>
  C2. The source \<open>[-inf]\<close> with the index \<open>[0]\<close> has one group; its only element, and
  hence its maximum, is negative infinity. \<^verbatim>\<open>scatter_max\<close> returns, and holds 0 at
  that group: the last step replaces every negative infinity, while the comment above it
  speaks of the positions with no values.
\<close>

theorem scatter_max_neg_inf_input:
  "\<not> isl (scatter_max ex_one_ninf ex_one_index 0 (Some 1)) \<and>
   map (elems ex_one_ninf) (group_positions ex_one_index ex_one_ninf 0 [0]) = [NInf] \<and>
   is_maximum NInf (map (elems ex_one_ninf) (group_positions ex_one_index ex_one_ninf 0 [0])) \<and>
   elems (fst (projr (scatter_max ex_one_ninf ex_one_index 0 (Some 1)))) [0] = Fin 0 \<and>
   elems (fst (projr (scatter_max ex_one_ninf ex_one_index 0 (Some 1)))) [0] \<noteq> NInf"
  by code_simp

theorem scatter_max_neg_inf_input_witness:
  "\<exists>m. is_maximum m (map (elems ex_one_ninf) (group_positions ex_one_index ex_one_ninf 0 [0])) \<and>
     elems (fst (projr (scatter_max ex_one_ninf ex_one_index 0 (Some 1)))) [0] \<noteq> m"
  using scatter_max_neg_inf_input by blast






text \<open>
  C9. For a valid axis and a compatible index with values in \<open>[0, G)\<close>, the first output
  of \<^verbatim>\<open>scatter_max\<close> holds 0 at every position all of whose contributing source elements
  are negative infinity, whether or not there is any such element; no position of the
  output holds negative infinity.
\<close>

theorem scatter_max_neg_inf_group:
  assumes "valid_dim d (tdim src)"
    and "index_compatible index src d"
    and "\<forall>i\<in>set (indices (shape index)). 0 \<le> elems index i \<and> elems index i < int G"
  shows "\<exists>ie out am.
     expand_index index src d = Inr ie \<and> shape ie = shape src \<and>
     scatter_max src index d (Some (int G)) = Inr (out, am) \<and>
     (\<forall>j\<in>set (indices (shape out)).
        ((\<forall>i\<in>set (contributors ie (norm_dim d (tdim src)) j). elems src i = NInf) \<longrightarrow>
           elems out j = Fin 0) \<and>
        elems out j \<noteq> NInf)"
proof -
  from scatter_max_value[OF assms] obtain ie out am where
    a: "expand_index index src d = Inr ie" "shape ie = shape src"
      "scatter_max src index d (Some (int G)) = Inr (out, am)"
    and val: "\<forall>j\<in>set (indices (shape out)). elems out j =
          drop_ninf (foldl fmax NInf (map (elems src) (contributors ie (norm_dim d (tdim src)) j)))"
    by blast
  have "((\<forall>i\<in>set (contributors ie (norm_dim d (tdim src)) j). elems src i = NInf) \<longrightarrow>
           elems out j = Fin 0) \<and> elems out j \<noteq> NInf"
    if "j \<in> set (indices (shape out))" for j
    using val that foldl_fmax_all_NInf[of "map (elems src) (contributors ie (norm_dim d (tdim src)) j)"]
    by (auto simp: drop_ninf_def feq_def zero_fval_def)
  with a show ?thesis by blast
qed


theorem scatter_max_neg_inf_group_witness:
  "\<exists>out am. scatter_max ex_ninf ex_index 0 (Some 2) = Inr (out, am) \<and>
     elems out [0] = Fin 0 \<and> elems out [1] \<noteq> NInf"
proof -
  from scatter_max_neg_inf_group[OF ex_valid(3) ex_compatible(3) ex_range] obtain ie out am where
    ie: "expand_index ex_index ex_ninf 0 = Inr ie"
    and sie: "shape ie = shape ex_ninf"
    and out: "scatter_max ex_ninf ex_index 0 (Some (int 2)) = Inr (out, am)"
    and val: "\<forall>j\<in>set (indices (shape out)).
        ((\<forall>i\<in>set (contributors ie (norm_dim 0 (tdim ex_ninf)) j). elems ex_ninf i = NInf) \<longrightarrow>
           elems out j = Fin 0) \<and> elems out j \<noteq> NInf"
    by blast
  have same: "\<forall>i\<in>set (indices [4]). elems ie i = elems ex_index i"
    using expand_index_same_shape[OF _ ie] unfolding ex_shapes by simp
  have sh2: "shape out = [2]"
    using scatter_max_shape[OF out] by (auto simp: ex_norm ex_shapes group_count_def map_eq_Cons_conv)
  have "map (elems ex_ninf) (contributors ie 0 [0]) = [NInf, NInf]"
    using ex_contributors_ninf(3) sie same unfolding ex_shapes by simp
  then have "\<forall>i\<in>set (contributors ie 0 [0]). elems ex_ninf i = NInf"
    by (metis (no_types, lifting) empty_iff imageI insert_iff list.set(1) list.simps(15) set_map)
  then have "elems out [0] = Fin 0"
    using val ex_positions(1) unfolding sh2 ex_norm by blast
  moreover have "elems out [1] \<noteq> NInf"
    using val ex_positions(2) unfolding sh2 ex_norm by blast
  ultimately show ?thesis using out by simp
qed

end
